theory Spec2Isabelle
  imports Main "HOL-Library.AList"
begin

section \<open>JavaScript values and message objects\<close>

text \<open>
  The module \<^verbatim>\<open>nodes/uiblib.js\<close> works on Node-RED message objects: open-ended
  JavaScript objects whose property values are not constrained.  A value is one of the
  JavaScript kinds the module can tell apart (by \<^verbatim>\<open>typeof\<close>, by truthiness, by
  \<^verbatim>\<open>hasOwnProperty\<close>).  Numbers are restricted to integers, strings to sequences
  of 8-bit code units.  An object is the list of its own properties in insertion order,
  which is the order \<^verbatim>\<open>Object.keys\<close> enumerates.  Messages are plain objects: they do
  not shadow \<^verbatim>\<open>Object.prototype.hasOwnProperty\<close> and inherit no other property.
\<close>

datatype jsval =
    JUndefined
  | JNull
  | JBool bool
  | JNum int
  | JStr string
  | JArr "jsval list"
  | JObj "(string \<times> jsval) list"

type_synonym jsobj = "(string \<times> jsval) list"

text \<open>\<^verbatim>\<open>if (v)\<close>: the JavaScript conversion to boolean.\<close>

fun truthy :: "jsval \<Rightarrow> bool" where
  "truthy JUndefined = False"
| "truthy JNull = False"
| "truthy (JBool b) = b"
| "truthy (JNum n) = (n \<noteq> 0)"
| "truthy (JStr s) = (s \<noteq> [])"
| "truthy (JArr vs) = True"
| "truthy (JObj ps) = True"

text \<open>\<^verbatim>\<open>typeof v === 'object'\<close> (which holds of \<^verbatim>\<open>null\<close> too).\<close>

fun typeof_object :: "jsval \<Rightarrow> bool" where
  "typeof_object (JObj ps) = True"
| "typeof_object (JArr vs) = True"
| "typeof_object JNull = True"
| "typeof_object v = False"

definition hasOwnProperty :: "jsobj \<Rightarrow> string \<Rightarrow> bool" where
  "hasOwnProperty obj k = (map_of obj k \<noteq> None)"

text \<open>\<^verbatim>\<open>obj.k\<close>: reading a missing property yields \<^verbatim>\<open>undefined\<close>.\<close>

definition get_prop :: "jsobj \<Rightarrow> string \<Rightarrow> jsval" where
  "get_prop obj k = (case map_of obj k of None \<Rightarrow> JUndefined | Some v \<Rightarrow> v)"

text \<open>\<^verbatim>\<open>obj.k = v\<close>: overwrite in place, or append a new property.\<close>

definition set_prop :: "jsobj \<Rightarrow> string \<Rightarrow> jsval \<Rightarrow> jsobj" where
  "set_prop obj k v = AList.update k v obj"

text \<open>\<^verbatim>\<open>delete obj.k\<close>.\<close>

definition delete_prop :: "jsobj \<Rightarrow> string \<Rightarrow> jsobj" where
  "delete_prop obj k = AList.delete k obj"


section \<open>The node, the collaborators and what they observe\<close>

text \<open>
  The fields of the node instance that the module reads or writes.  They are set by the
  node's constructor from its configuration, with the types given here.
\<close>

record ioChannels =
  control :: string
  client :: string
  server :: string

record node =
  url :: string
  ioNamespace :: string
  ioChannels :: ioChannels
  rcvMsgCount :: int
  allowScripts :: bool
  allowStyles :: bool
  fwdInMessages :: bool
  topic :: string

text \<open>
  The module's collaborators (the Socket.IO namespace \<^verbatim>\<open>ioNs\<close>, the Socket.IO server
  \<^verbatim>\<open>io\<close>, the Express application \<^verbatim>\<open>app\<close>, the logger \<^verbatim>\<open>log\<close> and the node's
  own \<^verbatim>\<open>send\<close> and \<^verbatim>\<open>status\<close> methods) are external.  Every call the module makes
  on one of them is recorded, in order, as an event; a recorded message is the message
  as it is at the time of the call.
\<close>

type_synonym callback = string

datatype event =
    LogDebug "jsval list"                   \<comment> \<open>\<^verbatim>\<open>log.debug(...)\<close>\<close>
  | Status jsval                            \<comment> \<open>\<^verbatim>\<open>node.status(status)\<close>\<close>
  | Emit string jsobj                       \<comment> \<open>\<^verbatim>\<open>ioNs.emit(channel, msg)\<close>: to the whole namespace\<close>
  | EmitTo jsval string jsobj               \<comment> \<open>\<^verbatim>\<open>ioNs.to(id).emit(channel, msg)\<close>\<close>
  | Send jsobj                              \<comment> \<open>\<^verbatim>\<open>node.send(msg)\<close>\<close>
  | SendArr "jsobj option list"             \<comment> \<open>\<^verbatim>\<open>node.send([..])\<close>, \<open>None\<close> for \<^verbatim>\<open>null\<close>\<close>
  | Keys                                    \<comment> \<open>\<^verbatim>\<open>Object.keys(ioNs.connected)\<close>\<close>
  | Disconnect string                       \<comment> \<open>\<^verbatim>\<open>ioNs.connected[id].disconnect()\<close>\<close>
  | RemoveAllListeners                      \<comment> \<open>\<^verbatim>\<open>ioNs.removeAllListeners()\<close>\<close>
  | DeleteNsp string                        \<comment> \<open>\<^verbatim>\<open>delete io.nsps[name]\<close>\<close>
  | Render nat                              \<comment> \<open>\<^verbatim>\<open>r.regexp.toString()\<close> of the layer at an index\<close>
  | Splice nat                              \<comment> \<open>\<^verbatim>\<open>app._router.stack.splice(i, 1)\<close>\<close>
  | Called callback                         \<comment> \<open>\<^verbatim>\<open>done()\<close>\<close>

text \<open>An entry of \<^verbatim>\<open>app._router.stack\<close>: what \<^verbatim>\<open>regexp.toString()\<close> renders, and the
  handler it carries.\<close>

record layer =
  regexp :: string
  handle :: string

text \<open>
  The state of the collaborators.  \<open>raises\<close> tells which calls of the teardown steps
  (enumerating and disconnecting the clients, removing the listeners and the namespace,
  pruning the routes) raise an exception when made; all other collaborator calls return
  normally.
\<close>

record world =
  trace :: "event list"
  connected :: "string list"                \<comment> \<open>keys of \<^verbatim>\<open>ioNs.connected\<close>\<close>
  listeners :: "string list"                \<comment> \<open>events \<^verbatim>\<open>ioNs\<close> has listeners for\<close>
  nsps :: "string list"                     \<comment> \<open>keys of \<^verbatim>\<open>io.nsps\<close>\<close>
  stack :: "layer list"                     \<comment> \<open>\<^verbatim>\<open>app._router.stack\<close>\<close>
  raises :: "event \<Rightarrow> bool"

definition record_event :: "event \<Rightarrow> world \<Rightarrow> world" where
  "record_event ev w = w\<lparr>trace := trace w @ [ev]\<rparr>"

text \<open>The events a call added to the trace.\<close>

definition new_events :: "world \<Rightarrow> world \<Rightarrow> event list" where
  "new_events w w' = drop (length (trace w)) (trace w')"

fun is_transport :: "event \<Rightarrow> bool" where
  "is_transport (Emit ch m) = True"
| "is_transport (EmitTo i ch m) = True"
| "is_transport ev = False"

fun is_broadcast :: "event \<Rightarrow> bool" where
  "is_broadcast (Emit ch m) = True"
| "is_broadcast ev = False"

fun is_output :: "event \<Rightarrow> bool" where
  "is_output (Send m) = True"
| "is_output (SendArr ms) = True"
| "is_output ev = False"

fun emitted_msg :: "event \<Rightarrow> jsobj option" where
  "emitted_msg (Emit ch m) = Some m"
| "emitted_msg (EmitTo i ch m) = Some m"
| "emitted_msg ev = None"


section \<open>inputHandler\<close>

text \<open>
  \<^verbatim>\<open>inputHandler: function(msg, node, RED, io, ioNs, log)\<close>.  The function mutates
  \<^verbatim>\<open>node\<close> and \<^verbatim>\<open>msg\<close> in place; the model returns the result (\<open>None\<close> for
  \<^verbatim>\<open>null\<close>), the node and the collaborators' state.
\<close>

definition inputHandler :: "jsobj \<Rightarrow> node \<Rightarrow> world \<Rightarrow> jsobj option \<times> node \<times> world" where
  "inputHandler msg nd w =
    (let nd1 = nd\<lparr>rcvMsgCount := rcvMsgCount nd + 1\<rparr> in
     if hasOwnProperty msg ''uibuilderCtrl'' then (None, nd1, w)
     else
       let msg1 = (if allowScripts nd1 \<noteq> True
                   then (if hasOwnProperty msg ''script'' then delete_prop msg ''script'' else msg)
                   else msg);
           msg2 = (if allowStyles nd1 \<noteq> True
                   then (if hasOwnProperty msg1 ''style'' then delete_prop msg1 ''style'' else msg1)
                   else msg1);
           w1 = (if truthy (get_prop msg2 ''_socketId'')
                 then record_event (EmitTo (get_prop msg2 ''_socketId'') (server (ioChannels nd1)) msg2) w
                 else record_event (Emit (server (ioChannels nd1)) msg2) w);
           w2 = record_event (LogDebug [JStr ''uibuilder - msg sent to front-end via ws channel, '',
                                        JStr (server (ioChannels nd1)), JStr '': '', JObj msg2]) w1;
           w3 = (if fwdInMessages nd1
                 then record_event (LogDebug [JStr ''uibuilder - msg passed downstream to next node: '',
                                              JObj msg2])
                        (record_event (Send msg2) w2)
                 else w2)
       in (Some msg2, nd1, w3))"


section \<open>setNodeStatus and sendControl\<close>

text \<open>\<^verbatim>\<open>setNodeStatus: function(status, node)\<close>.\<close>

definition setNodeStatus :: "jsval \<Rightarrow> world \<Rightarrow> world" where
  "setNodeStatus status w =
    (let status1 = (if \<not> typeof_object status
                    then JObj [(''fill'', JStr ''grey''), (''shape'', JStr ''ring''), (''text'', status)]
                    else status)
     in record_event (Status status1) w)"

text \<open>
  \<^verbatim>\<open>sendControl: function(msg, ioNs, node, socketId)\<close>; an omitted \<^verbatim>\<open>socketId\<close> is
  \<^verbatim>\<open>undefined\<close>.  The message is mutated in place; the model returns it.
\<close>

definition sendControl :: "jsobj \<Rightarrow> node \<Rightarrow> jsval \<Rightarrow> world \<Rightarrow> jsobj \<times> world" where
  "sendControl msg nd socketId w =
    (let msg1 = (if truthy socketId then set_prop msg ''_socketId'' socketId else msg);
         w1 = (if truthy (get_prop msg1 ''_socketId'')
               then record_event (EmitTo (get_prop msg1 ''_socketId'') (control (ioChannels nd)) msg1) w
               else record_event (Emit (control (ioChannels nd)) msg1) w);
         msg2 = (if (\<not> hasOwnProperty msg1 ''topic'') \<and> topic nd \<noteq> ''''
                 then set_prop msg1 ''topic'' (JStr (topic nd)) else msg1)
     in (msg2, record_event (SendArr [None, Some msg2]) w1))"


section \<open>getProps\<close>

text \<open>
  \<^verbatim>\<open>RED.util.getMessageProperty\<close> belongs to the Node-RED runtime.  It is a parameter
  of the model: given the object and a property expression it returns a value
  (\<^verbatim>\<open>undefined\<close> included) or throws, which is \<open>Inl\<close>.
\<close>

datatype exn = Thrown event | TypeError | SyntaxError | ReferenceError string

type_synonym getMessageProperty = "jsval \<Rightarrow> jsval \<Rightarrow> exn + jsval"

text \<open>
  The \<^verbatim>\<open>for\<close> loop of \<^verbatim>\<open>getProps\<close>, returning the final value of \<^verbatim>\<open>ans\<close>:
  a throwing lookup is caught and leaves \<^verbatim>\<open>ans\<close> as it is (still \<^verbatim>\<open>undefined\<close>),
  the first lookup that is not \<^verbatim>\<open>undefined\<close> ends the loop.
\<close>

fun getProps_loop :: "getMessageProperty \<Rightarrow> jsval \<Rightarrow> jsval list \<Rightarrow> jsval" where
  "getProps_loop gmp myObj [] = JUndefined"
| "getProps_loop gmp myObj (p # ps) =
    (case gmp myObj p of
       Inl e \<Rightarrow> getProps_loop gmp myObj ps
     | Inr ans \<Rightarrow> if ans \<noteq> JUndefined then ans else getProps_loop gmp myObj ps)"

text \<open>
  \<^verbatim>\<open>getProps: function(RED, myObj, props, defaultAnswer = [])\<close>.  The default parameter
  value applies when the argument is \<^verbatim>\<open>undefined\<close>.
\<close>

definition getProps :: "getMessageProperty \<Rightarrow> jsval \<Rightarrow> jsval \<Rightarrow> jsval \<Rightarrow> jsval" where
  "getProps gmp myObj props defaultAnswer =
    (let defaultAnswer1 = (if defaultAnswer = JUndefined then JArr [] else defaultAnswer);
         props1 = (case props of JStr s \<Rightarrow> JArr [props] | _ \<Rightarrow> props)
     in case props1 of
          JArr ps \<Rightarrow> (let ans = getProps_loop gmp myObj ps
                      in if truthy ans then ans else defaultAnswer1)
        | _ \<Rightarrow> JUndefined)"

text \<open>
  A lookup in the manner of \<^verbatim>\<open>getMessageProperty\<close> for dotted paths, to run
  \<open>getProps\<close> on examples: it walks the path and throws when it has to read a
  property of \<^verbatim>\<open>undefined\<close> or \<^verbatim>\<open>null\<close>.
\<close>

fun split_path :: "string \<Rightarrow> string \<Rightarrow> string list" where
  "split_path acc [] = [acc]"
| "split_path acc (c # cs) = (if c = CHR ''.'' then acc # split_path [] cs else split_path (acc @ [c]) cs)"

fun walk_path :: "jsval \<Rightarrow> string list \<Rightarrow> exn + jsval" where
  "walk_path v [] = Inr v"
| "walk_path (JObj ps) (k # ks) = walk_path (get_prop ps k) ks"
| "walk_path JUndefined (k # ks) = Inl TypeError"
| "walk_path JNull (k # ks) = Inl TypeError"
| "walk_path v (k # ks) = walk_path JUndefined ks"

fun dotted_lookup :: getMessageProperty where
  "dotted_lookup obj (JStr p) = walk_path obj (split_path [] p)"
| "dotted_lookup obj p = Inl TypeError"


section \<open>String utilities\<close>

abbreviation bslash :: char where "bslash \<equiv> CHR 0x5C"

text \<open>
  \<^verbatim>\<open>e.replace(/^\/|\/$/g, '')\<close>: the global replacement deletes one slash at the
  start, and one slash at the end of what follows it.
\<close>

definition strip_slash :: "string \<Rightarrow> string" where
  "strip_slash e =
    (let e1 = (case e of [] \<Rightarrow> [] | c # cs \<Rightarrow> if c = CHR ''/'' then cs else e)
     in if e1 \<noteq> [] \<and> last e1 = CHR ''/'' then butlast e1 else e1)"

text \<open>\<^verbatim>\<open>Array.prototype.join\<close> on strings.\<close>

fun array_join :: "string \<Rightarrow> string list \<Rightarrow> string" where
  "array_join sep [] = []"
| "array_join sep [x] = x"
| "array_join sep (x # y # ys) = x @ sep @ array_join sep (y # ys)"

text \<open>\<^verbatim>\<open>urlJoin: function()\<close>, on the list of its arguments.\<close>

definition urlJoin :: "string list \<Rightarrow> string" where
  "urlJoin paths = ''/'' @ array_join ''/'' (filter (\<lambda>e. e \<noteq> []) (map strip_slash paths))"

text \<open>The characters of the class \<^verbatim>\<open>[.*+?^${}()|[\]\\]\<close>.\<close>

definition regexp_specials :: "char list" where
  "regexp_specials = ''.*+?^${}()|[]'' @ [bslash]"

text \<open>
  \<^verbatim>\<open>escapeRegExp: function(string)\<close>, that is
  \<^verbatim>\<open>string.replace(/[.*+?^${}()|[\]\\]/g, '\\$&')\<close>: every character of the class is
  replaced by a backslash and itself.
\<close>

definition escapeRegExp :: "string \<Rightarrow> string" where
  "escapeRegExp s = concat (map (\<lambda>c. if c \<in> set regexp_specials then [bslash, c] else [c]) s)"


section \<open>Regular expressions\<close>

text \<open>
  \<^verbatim>\<open>new RegExp(pattern)\<close> and \<^verbatim>\<open>String.prototype.replace\<close> are built into the
  language.  The model covers the fragment of the pattern language made of literal
  characters, identity escapes of syntax characters, \<^verbatim>\<open>.\<close>, \<^verbatim>\<open>^\<close>, \<^verbatim>\<open>$\<close>,
  the greedy quantifiers \<^verbatim>\<open>*\<close>, \<^verbatim>\<open>+\<close>, \<^verbatim>\<open>?\<close>, alternation and groups, with no
  flags.  The constructor yields \<open>None\<close> for a pattern it rejects and for a pattern
  outside the fragment (classes, braces, lazy quantifiers, other escapes).
\<close>

datatype regex =
    Lit char
  | Dot
  | Bol
  | Eol
  | Eps
  | Seq regex regex
  | Alt regex regex
  | Star regex
  | Plus regex
  | Opt regex
  | Group regex

text \<open>A frame of the parser: the alternatives closed so far and the terms of the
  current one, both latest first.\<close>

type_synonym frame = "regex list \<times> regex list"

fun mk_seq :: "regex list \<Rightarrow> regex" where
  "mk_seq [] = Eps"
| "mk_seq (r # rs) = Seq r (mk_seq rs)"

fun mk_alt :: "regex list \<Rightarrow> regex" where
  "mk_alt [] = Eps"
| "mk_alt [r] = r"
| "mk_alt (r # rs) = Alt r (mk_alt rs)"

definition close_frame :: "frame \<Rightarrow> regex" where
  "close_frame f = mk_alt (rev (mk_seq (rev (snd f)) # fst f))"

fun quantifiable :: "regex \<Rightarrow> bool" where
  "quantifiable (Lit c) = True"
| "quantifiable Dot = True"
| "quantifiable (Group r) = True"
| "quantifiable r = False"

definition quantify :: "(regex \<Rightarrow> regex) \<Rightarrow> frame \<Rightarrow> frame option" where
  "quantify q f =
    (case snd f of
       [] \<Rightarrow> None
     | a # as \<Rightarrow> if quantifiable a then Some (fst f, q a # as) else None)"

text \<open>The parser reads the pattern left to right; \<open>esc\<close> says that the previous
  character was an unescaped backslash.\<close>

fun parse :: "bool \<Rightarrow> string \<Rightarrow> frame \<Rightarrow> frame list \<Rightarrow> regex option" where
  "parse esc [] cur stk = (if esc \<or> stk \<noteq> [] then None else Some (close_frame cur))"
| "parse esc (c # cs) cur stk =
    (if esc then
       (if c \<in> set regexp_specials \<or> c = CHR ''/''
        then parse False cs (fst cur, Lit c # snd cur) stk else None)
     else if c = bslash then parse True cs cur stk
     else if c = CHR ''.'' then parse False cs (fst cur, Dot # snd cur) stk
     else if c = CHR ''^'' then parse False cs (fst cur, Bol # snd cur) stk
     else if c = CHR ''$'' then parse False cs (fst cur, Eol # snd cur) stk
     else if c = CHR ''*'' then
       (case quantify Star cur of None \<Rightarrow> None | Some cur' \<Rightarrow> parse False cs cur' stk)
     else if c = CHR ''+'' then
       (case quantify Plus cur of None \<Rightarrow> None | Some cur' \<Rightarrow> parse False cs cur' stk)
     else if c = CHR ''?'' then
       (case quantify Opt cur of None \<Rightarrow> None | Some cur' \<Rightarrow> parse False cs cur' stk)
     else if c = CHR ''|'' then parse False cs (mk_seq (rev (snd cur)) # fst cur, []) stk
     else if c = CHR ''('' then parse False cs ([], []) (cur # stk)
     else if c = CHR '')'' then
       (case stk of
          [] \<Rightarrow> None
        | f # fs \<Rightarrow> parse False cs (fst f, Group (close_frame cur) # snd f) fs)
     else if c \<in> set ''[]{}'' then None
     else parse False cs (fst cur, Lit c # snd cur) stk)"

definition RegExp :: "string \<Rightarrow> regex option" where
  "RegExp pattern = parse False pattern ([], []) []"

text \<open>
  Matching is backtracking, as the language defines it: from a state (the index reached
  and the input left) a pattern yields the states it can end in, in the order the
  matcher tries them.  \<^verbatim>\<open>.\<close> does not match a line terminator; \<^verbatim>\<open>^\<close> and \<^verbatim>\<open>$\<close>
  match at the two ends of the input only.
\<close>

type_synonym mstate = "nat \<times> string"

definition line_terminator :: "char \<Rightarrow> bool" where
  "line_terminator c = (c = CHR 0x0A \<or> c = CHR 0x0D)"

text \<open>Greedy repetition; an iteration that consumes nothing is rejected, so the
  length of the input left bounds the number of iterations.\<close>

fun repeat :: "(mstate \<Rightarrow> mstate list) \<Rightarrow> nat \<Rightarrow> mstate \<Rightarrow> mstate list" where
  "repeat f 0 st = [st]"
| "repeat f (Suc n) st =
     concat (map (\<lambda>st'. if length (snd st') < length (snd st) then repeat f n st' else []) (f st))
     @ [st]"

primrec matches :: "regex \<Rightarrow> mstate \<Rightarrow> mstate list" where
  "matches (Lit c) =
     (\<lambda>st. case snd st of [] \<Rightarrow> [] | x # xs \<Rightarrow> if x = c then [(Suc (fst st), xs)] else [])"
| "matches Dot =
     (\<lambda>st. case snd st of [] \<Rightarrow> [] | x # xs \<Rightarrow> if line_terminator x then [] else [(Suc (fst st), xs)])"
| "matches Bol = (\<lambda>st. if fst st = 0 then [st] else [])"
| "matches Eol = (\<lambda>st. if snd st = [] then [st] else [])"
| "matches Eps = (\<lambda>st. [st])"
| "matches (Seq a b) = (\<lambda>st. concat (map (matches b) (matches a st)))"
| "matches (Alt a b) = (\<lambda>st. matches a st @ matches b st)"
| "matches (Star a) = (\<lambda>st. repeat (matches a) (length (snd st)) st)"
| "matches (Plus a) =
     (\<lambda>st. concat (map (\<lambda>st'. repeat (matches a) (length (snd st')) st') (matches a st)))"
| "matches (Opt a) = (\<lambda>st. matches a st @ [st])"
| "matches (Group a) = matches a"

text \<open>The first match, trying the start indices in increasing order: its two ends.\<close>

fun exec_from :: "regex \<Rightarrow> nat \<Rightarrow> string \<Rightarrow> (nat \<times> nat) option" where
  "exec_from re i s =
    (case matches re (i, s) of
       st # sts \<Rightarrow> Some (i, fst st)
     | [] \<Rightarrow> (case s of [] \<Rightarrow> None | c # cs \<Rightarrow> exec_from re (Suc i) cs))"

definition regexp_exec :: "regex \<Rightarrow> string \<Rightarrow> (nat \<times> nat) option" where
  "regexp_exec re s = exec_from re 0 s"

definition regexp_test :: "regex \<Rightarrow> string \<Rightarrow> bool" where
  "regexp_test re s = (regexp_exec re s \<noteq> None)"

text \<open>\<^verbatim>\<open>s.replace(re, new)\<close> for a pattern without the global flag and a replacement
  without \<^verbatim>\<open>$\<close>: the first match is replaced.\<close>

definition string_replace :: "string \<Rightarrow> regex \<Rightarrow> string \<Rightarrow> string" where
  "string_replace s re new =
    (case regexp_exec re s of None \<Rightarrow> s | Some (b, e) \<Rightarrow> take b s @ new @ drop e s)"


section \<open>processClose\<close>

text \<open>
  \<^verbatim>\<open>processClose\<close> refers to \<^verbatim>\<open>setNodeStatus\<close>, \<^verbatim>\<open>sendControl\<close>, \<^verbatim>\<open>urlJoin\<close>
  and \<^verbatim>\<open>escapeRegExp\<close> by bare identifiers.  A bare identifier is looked up in the
  scopes around the function: its parameters, the declarations of the module, the
  globals of the runtime.  The module is in strict mode and declares nothing at its top
  level: its functions are properties of the object literal that it assigns to
  \<^verbatim>\<open>module.exports\<close>, and the runtime has no global of these names.  Evaluating a name
  that is bound nowhere raises \<^verbatim>\<open>ReferenceError\<close>, before the arguments of the call
  are evaluated.

  The function has no \<^verbatim>\<open>try\<close>: an exception leaves it at once.  A step therefore
  yields \<open>Some\<close> exception or \<open>None\<close> for normal completion, together with the state.
  A collaborator call that raises is recorded too, as the last event, and has no effect.
\<close>

text \<open>The names that the module declares at its top level.\<close>

definition declared_names :: "string list" where
  "declared_names = []"

text \<open>A call through a bare identifier.\<close>

definition bare :: "string \<Rightarrow> (world \<Rightarrow> exn option \<times> world) \<Rightarrow> world \<Rightarrow> exn option \<times> world" where
  "bare name f w = (if name \<in> set declared_names then f w else (Some (ReferenceError name), w))"

text \<open>A call that returns normally.\<close>

definition returns :: "(world \<Rightarrow> world) \<Rightarrow> world \<Rightarrow> exn option \<times> world" where
  "returns f w = (None, f w)"

definition call :: "event \<Rightarrow> (world \<Rightarrow> world) \<Rightarrow> world \<Rightarrow> exn option \<times> world" where
  "call ev effect w =
    (let w1 = record_event ev w
     in if raises w ev then (Some (Thrown ev), w1) else (None, effect w1))"

definition and_then ::
  "(world \<Rightarrow> exn option \<times> world) \<Rightarrow> (world \<Rightarrow> exn option \<times> world) \<Rightarrow> world \<Rightarrow> exn option \<times> world" where
  "and_then f g w = (case f w of (None, w1) \<Rightarrow> g w1 | (Some e, w1) \<Rightarrow> (Some e, w1))"

definition skip :: "world \<Rightarrow> exn option \<times> world" where
  "skip w = (None, w)"

definition shutdown_msg :: jsobj where
  "shutdown_msg = [(''uibuilderCtrl'', JStr ''shutdown''), (''from'', JStr ''server'')]"

text \<open>Lines 67 to 72: the log entry, the status, the notice to the clients.\<close>

definition announce_close :: "node \<Rightarrow> world \<Rightarrow> exn option \<times> world" where
  "announce_close nd =
     and_then
       (returns (record_event
          (LogDebug [JStr ''uibuilder:nodeGo:on-close:processClose'', JStr (url nd)])))
       (and_then
          (bare ''setNodeStatus''
             (returns (setNodeStatus (JObj [(''fill'', JStr ''red''), (''shape'', JStr ''ring''),
                                            (''text'', JStr ''CLOSED'')]))))
          (bare ''sendControl''
             (returns (\<lambda>w. snd (sendControl shutdown_msg nd JUndefined w)))))"

text \<open>The \<^verbatim>\<open>forEach\<close> over the snapshot of the connected socket ids; a socket that
  disconnects leaves \<^verbatim>\<open>ioNs.connected\<close>.\<close>

fun disconnect_each :: "string list \<Rightarrow> world \<Rightarrow> exn option \<times> world" where
  "disconnect_each [] = skip"
| "disconnect_each (socketId # ids) =
     and_then (call (Disconnect socketId) (\<lambda>w. w\<lparr>connected := removeAll socketId (connected w)\<rparr>))
              (disconnect_each ids)"

text \<open>Lines 75 to 80.\<close>

definition disconnect_clients :: "world \<Rightarrow> exn option \<times> world" where
  "disconnect_clients =
     and_then (call Keys id)
       (\<lambda>w. let connectedNameSpaceSockets = connected w
            in (if length connectedNameSpaceSockets > 0
                then disconnect_each connectedNameSpaceSockets else skip) w)"

text \<open>Lines 81 and 82.\<close>

definition remove_namespace :: "node \<Rightarrow> world \<Rightarrow> exn option \<times> world" where
  "remove_namespace nd =
     and_then (call RemoveAllListeners (\<lambda>w. w\<lparr>listeners := []\<rparr>))
              (call (DeleteNsp (ioNamespace nd)) (\<lambda>w. w\<lparr>nsps := removeAll (ioNamespace nd) (nsps w)\<rparr>))"

text \<open>The \<^verbatim>\<open>forEach\<close> of lines 88 to 95 from index \<open>i\<close> on: the indices pushed to
  \<^verbatim>\<open>removePath\<close>.\<close>

fun find_paths :: "regex \<Rightarrow> layer list \<Rightarrow> nat \<Rightarrow> nat list \<Rightarrow> world \<Rightarrow> exn option \<times> nat list \<times> world" where
  "find_paths urlRe [] i removePath w = (None, removePath, w)"
| "find_paths urlRe (r # rs) i removePath w =
    (case call (Render i) id w of
       (Some e, w1) \<Rightarrow> (Some e, removePath, w1)
     | (None, w1) \<Rightarrow>
         (let rUrl = string_replace (regexp r) urlRe ''''
          in find_paths urlRe rs (Suc i) (if rUrl = '''' then removePath @ [i] else removePath) w1))"

text \<open>\<^verbatim>\<open>stack.splice(i, 1)\<close>.\<close>

definition splice1 :: "nat \<Rightarrow> 'a list \<Rightarrow> 'a list" where
  "splice1 i xs = take i xs @ drop (Suc i) xs"

text \<open>The \<^verbatim>\<open>for\<close> loop of lines 98 to 100, on the indices in the order it visits them.\<close>

fun splice_each :: "nat list \<Rightarrow> world \<Rightarrow> exn option \<times> world" where
  "splice_each [] = skip"
| "splice_each (i # is) =
     and_then (call (Splice i) (\<lambda>w. w\<lparr>stack := splice1 i (stack w)\<rparr>)) (splice_each is)"

text \<open>
  Lines 86 to 100.  In line 87 the callee \<^verbatim>\<open>escapeRegExp\<close> is evaluated first, then,
  for its argument, the callee \<^verbatim>\<open>urlJoin\<close>.
\<close>

definition prune_routes :: "node \<Rightarrow> world \<Rightarrow> exn option \<times> world" where
  "prune_routes nd =
     bare ''escapeRegExp''
       (bare ''urlJoin''
          (\<lambda>w. case RegExp (''^'' @ escapeRegExp ([CHR ''/'', CHR ''^'', bslash] @ urlJoin [url nd])
                              @ ''.*$'') of
                 None \<Rightarrow> (Some SyntaxError, w)
               | Some urlRe \<Rightarrow>
                   (case find_paths urlRe (stack w) 0 [] w of
                      (Some e, removePath, w1) \<Rightarrow> (Some e, w1)
                    | (None, removePath, w1) \<Rightarrow> splice_each (rev removePath) w1)))"

text \<open>\<^verbatim>\<open>if (done) done()\<close>; \<open>None\<close> is the default \<^verbatim>\<open>null\<close>.\<close>

definition call_done :: "callback option \<Rightarrow> world \<Rightarrow> exn option \<times> world" where
  "call_done done w = (case done of None \<Rightarrow> (None, w) | Some cb \<Rightarrow> (None, record_event (Called cb) w))"

text \<open>\<^verbatim>\<open>processClose: function(done = null, node, RED, ioNs, io, app, log)\<close>.\<close>

definition processClose :: "callback option \<Rightarrow> node \<Rightarrow> world \<Rightarrow> exn option \<times> world" where
  "processClose done nd =
     and_then (announce_close nd)
       (and_then disconnect_clients
          (and_then (remove_namespace nd)
             (and_then (prune_routes nd) (call_done done))))"


section \<open>The pattern of line 87\<close>

text \<open>
  The rendered patterns that the pattern of line 87, built with the module's
  \<^verbatim>\<open>escapeRegExp\<close> and \<^verbatim>\<open>urlJoin\<close>, rewrites to the empty string: those that start
  with the characters \<^verbatim>\<open>/\<close>, \<^verbatim>\<open>^\<close> and backslash followed by the joined url and go
  on without a line terminator, and the empty string.
\<close>

definition prune_prefix :: "string \<Rightarrow> string" where
  "prune_prefix u = [CHR ''/'', CHR ''^'', bslash] @ urlJoin [u]"

definition pruned :: "string \<Rightarrow> string \<Rightarrow> bool" where
  "pruned u s =
    (s = [] \<or> (take (length (prune_prefix u)) s = prune_prefix u
               \<and> (\<forall>c \<in> set (drop (length (prune_prefix u)) s). \<not> line_terminator c)))"

text \<open>That pattern, parsed.\<close>

definition url_regex :: "node \<Rightarrow> regex" where
  "url_regex nd = mk_seq (Bol # map Lit (prune_prefix (url nd)) @ [Star Dot, Eol])"

text \<open>
  What Express renders for the layer of \<^verbatim>\<open>app.use(path, ...)\<close>: the pattern
  \<^verbatim>\<open>/^\/a\/?(?=\/|$)/i\<close> for the path \<^verbatim>\<open>/a\<close>, with every slash and dot of the
  path escaped.
\<close>

definition mount_regexp :: "string \<Rightarrow> string" where
  "mount_regexp path =
     ''/^'' @ concat (map (\<lambda>c. if c = CHR ''/'' \<or> c = CHR ''.'' then [bslash, c] else [c]) path)
     @ [bslash] @ ''/?(?=''  @ [bslash] @ ''/|$)/i''"

definition mounted :: "string \<Rightarrow> layer" where
  "mounted path = \<lparr>regexp = mount_regexp path, handle = path\<rparr>"

text \<open>The indices, counted from \<open>i\<close>, of the elements that satisfy \<open>P\<close>.\<close>

fun indices_from :: "('a \<Rightarrow> bool) \<Rightarrow> 'a list \<Rightarrow> nat \<Rightarrow> nat list" where
  "indices_from P [] i = []"
| "indices_from P (x # xs) i = (if P x then [i] else []) @ indices_from P xs (Suc i)"

text \<open>The kinds of events.\<close>

fun is_called :: "event \<Rightarrow> bool" where
  "is_called (Called cb) = True"
| "is_called ev = False"


section \<open>Examples\<close>

definition node0 :: node where
  "node0 = \<lparr>url = ''a'', ioNamespace = ''/a'',
            ioChannels = \<lparr>control = ''uiBuilderControl'', client = ''uiBuilderClient'',
                          server = ''uiBuilder''\<rparr>,
            rcvMsgCount = 0, allowScripts = False, allowStyles = False, fwdInMessages = True,
            topic = ''''\<rparr>"

definition world0 :: world where
  "world0 = \<lparr>trace = [], connected = [''s1'', ''s2''], listeners = [''connection''],
             nsps = [''/'', ''/a''],
             stack = [mounted ''/a'', mounted ''/a/b'', mounted ''/c''],
             raises = (\<lambda>ev. False)\<rparr>"


definition msg_ctrl :: jsobj where
  "msg_ctrl = [(''uibuilderCtrl'', JStr ''shutdown''), (''_socketId'', JStr ''s1'')]"

definition msg_data :: jsobj where
  "msg_data = [(''script'', JStr ''x''), (''topic'', JStr ''t''), (''value'', JNum 1)]"

definition msg_target :: jsobj where
  "msg_target = [(''payload'', JNum 1), (''style'', JStr ''y''), (''_socketId'', JStr ''s1'')]"

definition msg_zero_id :: jsobj where
  "msg_zero_id = [(''payload'', JNum 1), (''_socketId'', JNum 0)]"

definition msg_empty_id :: jsobj where
  "msg_empty_id = [(''uibuilderCtrl'', JStr ''ready''), (''_socketId'', JStr '''')]"


section \<open>Objects and traces\<close>

lemma hasOwnProperty_set_prop:
  "hasOwnProperty (set_prop obj k v) k' = (k' = k \<or> hasOwnProperty obj k')"
  by (simp add: hasOwnProperty_def set_prop_def update_conv')

lemma hasOwnProperty_delete_prop:
  "hasOwnProperty (delete_prop obj k) k' = (k' \<noteq> k \<and> hasOwnProperty obj k')"
  by (simp add: hasOwnProperty_def delete_prop_def delete_conv')

lemma get_prop_set_prop:
  "get_prop (set_prop obj k v) k' = (if k' = k then v else get_prop obj k')"
  by (simp add: get_prop_def set_prop_def update_conv')

lemma get_prop_delete_prop:
  "get_prop (delete_prop obj k) k' = (if k' = k then JUndefined else get_prop obj k')"
  by (simp add: get_prop_def delete_prop_def delete_conv')

lemma get_prop_missing: "\<not> hasOwnProperty obj k \<Longrightarrow> get_prop obj k = JUndefined"
  by (simp add: get_prop_def hasOwnProperty_def)

lemma stack_record_event [simp]: "stack (record_event ev w) = stack w"
  by (simp add: record_event_def)

lemma raises_record_event [simp]: "raises (record_event ev w) = raises w"
  by (simp add: record_event_def)

lemma trace_record_event [simp]: "trace (record_event ev w) = trace w @ [ev]"
  by (simp add: record_event_def)


section \<open>The patterns built from escaped strings\<close>

lemma parse_literal_char:
  "c \<notin> set regexp_specials \<Longrightarrow>
   parse False (c # cs) cur stk = parse False cs (fst cur, Lit c # snd cur) stk"
  by (simp add: regexp_specials_def)

lemma parse_escaped_char:
  "c \<in> set regexp_specials \<Longrightarrow>
   parse False (bslash # c # cs) cur stk = parse False cs (fst cur, Lit c # snd cur) stk"
  by simp

lemma parse_escapeRegExp:
  "parse False (escapeRegExp s @ rest) (alts, sq) stk =
   parse False rest (alts, rev (map Lit s) @ sq) stk"
proof (induction s arbitrary: sq)
  case Nil
  show ?case by (simp add: escapeRegExp_def)
next
  case (Cons c s)
  have step: "parse False (escapeRegExp (c # s) @ rest) (alts, sq) stk =
              parse False (escapeRegExp s @ rest) (alts, Lit c # sq) stk"
  proof (cases "c \<in> set regexp_specials")
    case True
    then have "escapeRegExp (c # s) @ rest = bslash # c # (escapeRegExp s @ rest)"
      by (simp add: escapeRegExp_def)
    then show ?thesis using parse_escaped_char [OF True] by simp
  next
    case False
    then have "escapeRegExp (c # s) @ rest = c # (escapeRegExp s @ rest)"
      by (simp add: escapeRegExp_def)
    then show ?thesis using parse_literal_char [OF False] by simp
  qed
  show ?case unfolding step Cons.IH by simp
qed

lemma RegExp_prefix_pattern:
  "RegExp (''^'' @ escapeRegExp s @ ''.*$'') = Some (mk_seq (Bol # map Lit s @ [Star Dot, Eol]))"
proof -
  have "RegExp (''^'' @ escapeRegExp s @ ''.*$'') = parse False (escapeRegExp s @ ''.*$'') ([], [Bol]) []"
    by (simp add: RegExp_def)
  also have "\<dots> = parse False ''.*$'' ([], rev (map Lit s) @ [Bol]) []"
    by (rule parse_escapeRegExp)
  also have "\<dots> = Some (mk_seq (Bol # map Lit s @ [Star Dot, Eol]))"
    by (simp add: quantify_def close_frame_def)
  finally show ?thesis .
qed

lemma RegExp_exact_pattern:
  "RegExp (''^'' @ escapeRegExp s @ ''$'') = Some (mk_seq (Bol # map Lit s @ [Eol]))"
proof -
  have "RegExp (''^'' @ escapeRegExp s @ ''$'') = parse False (escapeRegExp s @ ''$'') ([], [Bol]) []"
    by (simp add: RegExp_def)
  also have "\<dots> = parse False ''$'' ([], rev (map Lit s) @ [Bol]) []"
    by (rule parse_escapeRegExp)
  also have "\<dots> = Some (mk_seq (Bol # map Lit s @ [Eol]))"
    by (simp add: close_frame_def)
  finally show ?thesis .
qed

lemma matches_literals:
  "matches (mk_seq (map Lit l @ rs)) (i, s) =
     (if take (length l) s = l then matches (mk_seq rs) (i + length l, drop (length l) s) else [])"
proof (induction l arbitrary: i s)
  case Nil
  show ?case by simp
next
  case (Cons c l)
  show ?case
  proof (cases s)
    case Nil
    then show ?thesis by simp
  next
    case (Cons x xs)
    then show ?thesis using Cons.IH [of "Suc i" xs] by simp
  qed
qed

lemma take_eq_length: "take (length l) s = l \<Longrightarrow> length l \<le> length s"
proof -
  assume "take (length l) s = l"
  then have "length (take (length l) s) = length l" by simp
  then show ?thesis by simp
qed

lemma repeat_Dot_Eol:
  "length s \<le> n \<Longrightarrow>
   concat (map (matches (mk_seq [Eol])) (repeat (matches Dot) n (i, s))) =
     (if \<forall>c \<in> set s. \<not> line_terminator c then [(i + length s, [])] else [])"
proof (induction s arbitrary: n i)
  case Nil
  then show ?case by (cases n) simp_all
next
  case (Cons c s)
  then obtain m where n: "n = Suc m" and m: "length s \<le> m" by (cases n) auto
  have r: "repeat (matches Dot) (Suc m) (i, c # s) =
           (if line_terminator c then [] else repeat (matches Dot) m (Suc i, s)) @ [(i, c # s)]"
    by simp
  have e: "matches (mk_seq [Eol]) (i, c # s) = []" by simp
  show ?case
    unfolding n r using Cons.IH [OF m, of "Suc i"] e
    by (cases "line_terminator c") (simp_all del: matches.simps mk_seq.simps)
qed

lemma matches_rest_of_line:
  "matches (mk_seq [Star Dot, Eol]) (i, s) =
     (if \<forall>c \<in> set s. \<not> line_terminator c then [(i + length s, [])] else [])"
  using repeat_Dot_Eol [of s "length s" i] by simp

lemma matches_prefix_pattern:
  "matches (mk_seq (Bol # map Lit l @ [Star Dot, Eol])) (i, s) =
     (if i = 0 \<and> take (length l) s = l \<and> (\<forall>c \<in> set (drop (length l) s). \<not> line_terminator c)
      then [(length s, [])] else [])"
proof -
  have "matches (mk_seq (Bol # map Lit l @ [Star Dot, Eol])) (i, s) =
        (if i = 0 then matches (mk_seq (map Lit l @ [Star Dot, Eol])) (i, s) else [])"
    by simp
  also have "\<dots> = (if i = 0 \<and> take (length l) s = l \<and> (\<forall>c \<in> set (drop (length l) s). \<not> line_terminator c)
      then [(length s, [])] else [])"
    unfolding matches_literals matches_rest_of_line
    by (auto dest: take_eq_length)
  finally show ?thesis .
qed

lemma matches_exact_pattern:
  "matches (mk_seq (Bol # map Lit l @ [Eol])) (i, s) =
     (if i = 0 \<and> s = l then [(length s, [])] else [])"
proof -
  have "matches (mk_seq (Bol # map Lit l @ [Eol])) (i, s) =
        (if i = 0 then matches (mk_seq (map Lit l @ [Eol])) (i, s) else [])"
    by simp
  also have "\<dots> = (if i = 0 \<and> s = l then [(length s, [])] else [])"
    unfolding matches_literals
    by (auto dest: take_eq_length)
  finally show ?thesis .
qed

lemma exec_from_anchored:
  "(\<And>j t. 0 < j \<Longrightarrow> matches re (j, t) = []) \<Longrightarrow> 0 < i \<Longrightarrow> exec_from re i s = None"
  by (induction s arbitrary: i) simp_all

lemma regexp_exec_anchored:
  assumes "\<And>j t. 0 < j \<Longrightarrow> matches re (j, t) = []"
  shows "regexp_exec re s = (case matches re (0, s) of [] \<Rightarrow> None | st # sts \<Rightarrow> Some (0, fst st))"
proof (cases "matches re (0, s)")
  case Nil
  then show ?thesis
    using exec_from_anchored [OF assms, of "Suc 0"]
    by (cases s) (simp_all add: regexp_exec_def)
next
  case (Cons st sts)
  then show ?thesis by (simp add: regexp_exec_def)
qed

lemma string_replace_prefix_pattern:
  "string_replace s (mk_seq (Bol # map Lit l @ [Star Dot, Eol])) '''' =
     (if take (length l) s = l \<and> (\<forall>c \<in> set (drop (length l) s). \<not> line_terminator c)
      then '''' else s)"
proof -
  have "regexp_exec (mk_seq (Bol # map Lit l @ [Star Dot, Eol])) s =
        (case matches (mk_seq (Bol # map Lit l @ [Star Dot, Eol])) (0, s) of
           [] \<Rightarrow> None | st # sts \<Rightarrow> Some (0, fst st))"
    by (rule regexp_exec_anchored) (simp only: matches_prefix_pattern, simp)
  then show ?thesis
    by (simp only: string_replace_def matches_prefix_pattern) simp
qed

lemma regexp_test_exact_pattern:
  "regexp_test (mk_seq (Bol # map Lit l @ [Eol])) s = (s = l)"
proof -
  have "regexp_exec (mk_seq (Bol # map Lit l @ [Eol])) s =
        (case matches (mk_seq (Bol # map Lit l @ [Eol])) (0, s) of
           [] \<Rightarrow> None | st # sts \<Rightarrow> Some (0, fst st))"
    by (rule regexp_exec_anchored) (simp only: matches_exact_pattern, simp)
  then show ?thesis
    by (simp only: regexp_test_def matches_exact_pattern) simp
qed

section \<open>The loops of the pruning\<close>

lemma and_then_None: "fst (f w) = None \<Longrightarrow> and_then f g w = g (snd (f w))"
  by (cases "f w") (simp add: and_then_def)

lemma and_then_Some: "fst (f w) = Some e \<Longrightarrow> and_then f g w = f w"
  by (cases "f w") (simp add: and_then_def)

lemma find_paths_raise:
  "raises w (Render i) \<Longrightarrow>
   find_paths re (r # rs) i acc w = (Some (Thrown (Render i)), acc, record_event (Render i) w)"
  by (simp add: call_def Let_def)

lemma find_paths_step:
  "\<not> raises w (Render i) \<Longrightarrow>
   find_paths re (r # rs) i acc w =
     find_paths re rs (Suc i) (if string_replace (regexp r) re '''' = '''' then acc @ [i] else acc)
       (record_event (Render i) w)"
  by (simp add: call_def Let_def)

lemma find_paths_stack: "stack (snd (snd (find_paths re rs i acc w))) = stack w"
proof (induction rs arbitrary: i acc w)
  case Nil
  show ?case by simp
next
  case (Cons r rs)
  show ?case
  proof (cases "raises w (Render i)")
    case True
    show ?thesis unfolding find_paths_raise [OF True] by simp
  next
    case False
    show ?thesis unfolding find_paths_step [OF False] Cons.IH by simp
  qed
qed

lemma find_paths_indices:
  "fst (find_paths re rs i acc w) = None \<Longrightarrow>
   fst (snd (find_paths re rs i acc w)) =
     acc @ indices_from (\<lambda>r. string_replace (regexp r) re '''' = '''') rs i"
proof (induction rs arbitrary: i acc w)
  case Nil
  show ?case by simp
next
  case (Cons r rs)
  show ?case
  proof (cases "raises w (Render i)")
    case True
    with Cons.prems show ?thesis by (simp only: find_paths_raise [OF True]) simp
  next
    case False
    from Cons.prems have "fst (find_paths re rs (Suc i)
        (if string_replace (regexp r) re '''' = '''' then acc @ [i] else acc)
        (record_event (Render i) w)) = None"
      by (simp only: find_paths_step [OF False])
    from Cons.IH [OF this] show ?thesis
      by (simp only: find_paths_step [OF False]) simp
  qed
qed

lemma splice1_Suc: "splice1 (Suc i) (x # xs) = x # splice1 i xs"
  by (simp add: splice1_def)

lemma fold_splice1_Suc: "fold splice1 (map Suc is) (x # xs) = x # fold splice1 is xs"
  by (induction "is" arbitrary: xs) (simp_all add: splice1_Suc)

lemma indices_from_Suc: "indices_from P xs (Suc i) = map Suc (indices_from P xs i)"
  by (induction xs arbitrary: i) simp_all

text \<open>Splicing the collected indices out from the last to the first removes exactly the
  elements collected.\<close>

lemma fold_splice1_indices:
  "fold splice1 (rev (indices_from P xs 0)) xs = filter (\<lambda>x. \<not> P x) xs"
proof (induction xs)
  case Nil
  show ?case by simp
next
  case (Cons x xs)
  have "fold splice1 (rev (indices_from P (x # xs) 0)) (x # xs) =
        fold splice1 (if P x then [0] else []) (fold splice1 (map Suc (rev (indices_from P xs 0))) (x # xs))"
    by (simp add: indices_from_Suc [of P xs 0] rev_map)
  also have "\<dots> = fold splice1 (if P x then [0] else []) (x # filter (\<lambda>x. \<not> P x) xs)"
    by (simp only: fold_splice1_Suc Cons.IH)
  also have "\<dots> = filter (\<lambda>x. \<not> P x) (x # xs)"
    by (simp add: splice1_def)
  finally show ?case .
qed

lemma splice_each_stack:
  "fst (splice_each is w) = None \<Longrightarrow> stack (snd (splice_each is w)) = fold splice1 is (stack w)"
proof (induction "is" arbitrary: w)
  case Nil
  show ?case by (simp add: skip_def)
next
  case (Cons i "is")
  let ?c = "call (Splice i) (\<lambda>w. w\<lparr>stack := splice1 i (stack w)\<rparr>)"
  have c: "fst (?c w) = None"
  proof (cases "fst (?c w)")
    case None then show ?thesis .
  next
    case (Some e)
    with Cons.prems show ?thesis by (simp add: and_then_Some)
  qed
  then have nr: "\<not> raises w (Splice i)" by (auto simp: call_def Let_def split: if_splits)
  from c have eq: "splice_each (i # is) w = splice_each is (snd (?c w))"
    by (simp add: and_then_None)
  have st: "stack (snd (?c w)) = splice1 i (stack w)"
    using nr by (simp add: call_def Let_def)
  from Cons.prems Cons.IH [of "snd (?c w)"] show ?case
    unfolding eq st by simp
qed

text \<open>The two loops of lines 88 to 100, when they run to their end, leave the entries
  whose rendered pattern the expression does not rewrite to the empty string.\<close>

lemma pruning_loops:
  assumes f: "fst (find_paths re (stack w) 0 [] w) = None"
    and s: "fst (splice_each (rev (fst (snd (find_paths re (stack w) 0 [] w))))
                   (snd (snd (find_paths re (stack w) 0 [] w)))) = None"
  shows "stack (snd (splice_each (rev (fst (snd (find_paths re (stack w) 0 [] w))))
                       (snd (snd (find_paths re (stack w) 0 [] w))))) =
         filter (\<lambda>r. string_replace (regexp r) re '''' \<noteq> '''') (stack w)"
proof -
  have rp: "fst (snd (find_paths re (stack w) 0 [] w)) =
            indices_from (\<lambda>r. string_replace (regexp r) re '''' = '''') (stack w) 0"
    using find_paths_indices [OF f] by simp
  from splice_each_stack [OF s] show ?thesis
    unfolding rp find_paths_stack fold_splice1_indices .
qed

text \<open>The pattern of line 87 is accepted, and rewrites a rendered pattern to the empty
  string exactly when that pattern is \<open>pruned\<close>.\<close>

lemma line87_pattern:
  "RegExp (''^'' @ escapeRegExp ([CHR ''/'', CHR ''^'', bslash] @ urlJoin [url nd]) @ ''.*$'')
     = Some (url_regex nd)"
  unfolding url_regex_def prune_prefix_def by (rule RegExp_prefix_pattern)

lemma pruned_iff:
  "(string_replace s (url_regex nd) '''' = '''') = pruned (url nd) s"
  unfolding url_regex_def string_replace_prefix_pattern pruned_def by auto


section \<open>processClose ends at line 69\<close>

lemma sendControl_trace:
  "trace (snd (sendControl msg nd sid w)) =
     trace w @ [if truthy (if truthy sid then sid else get_prop msg ''_socketId'')
                then EmitTo (if truthy sid then sid else get_prop msg ''_socketId'') (control (ioChannels nd))
                       (if truthy sid then set_prop msg ''_socketId'' sid else msg)
                else Emit (control (ioChannels nd)) (if truthy sid then set_prop msg ''_socketId'' sid else msg),
                SendArr [None, Some (fst (sendControl msg nd sid w))]]"
  by (simp add: sendControl_def Let_def get_prop_set_prop)

lemma announce_close_raises:
  "announce_close nd w =
     (Some (ReferenceError ''setNodeStatus''),
      record_event (LogDebug [JStr ''uibuilder:nodeGo:on-close:processClose'', JStr (url nd)]) w)"
  by (simp add: announce_close_def and_then_def returns_def bare_def declared_names_def)

lemma processClose_raises:
  "processClose done nd w =
     (Some (ReferenceError ''setNodeStatus''),
      record_event (LogDebug [JStr ''uibuilder:nodeGo:on-close:processClose'', JStr (url nd)]) w)"
  by (simp add: processClose_def and_then_def announce_close_raises)



section \<open>The examples\<close>

lemma pruned_examples:
  "pruned ''a'' (regexp (mounted ''/a''))"
  "pruned ''a'' (regexp (mounted ''/a/b''))"
  "pruned ''a'' (regexp (mounted ''/ab''))"
  "\<not> pruned ''a'' (regexp (mounted ''/c''))"
  "\<not> pruned ''a.b'' (regexp (mounted ''/a.b''))"
  by (simp_all add: pruned_def prune_prefix_def urlJoin_def strip_slash_def mounted_def
      mount_regexp_def line_terminator_def)

lemma RegExp_examples:
  "RegExp ''^a.b$'' = Some (mk_seq [Bol, Lit CHR ''a'', Dot, Lit CHR ''b'', Eol])"
  "RegExp (''^'' @ escapeRegExp ''a.b'' @ ''$'') =
     Some (mk_seq [Bol, Lit CHR ''a'', Lit CHR ''.'', Lit CHR ''b'', Eol])"
  "RegExp ''a(b|c)*d'' =
     Some (mk_seq [Lit CHR ''a'',
                   Star (Group (Alt (mk_seq [Lit CHR ''b'']) (mk_seq [Lit CHR ''c'']))),
                   Lit CHR ''d''])"
  "RegExp ''a**'' = None"
  "RegExp ''(a'' = None"
  by (simp_all add: RegExp_def escapeRegExp_def regexp_specials_def quantify_def close_frame_def)

lemma regexp_test_examples:
  "regexp_test (mk_seq [Bol, Lit CHR ''a'', Dot, Lit CHR ''b'', Eol]) ''axb''"
  "\<not> regexp_test (mk_seq [Bol, Lit CHR ''a'', Lit CHR ''.'', Lit CHR ''b'', Eol]) ''axb''"
  "regexp_test (mk_seq [Bol, Lit CHR ''a'', Lit CHR ''.'', Lit CHR ''b'', Eol]) ''a.b''"
  by (simp_all add: regexp_test_def regexp_exec_def line_terminator_def)

lemma string_replace_example:
  "string_replace ''xxabcbcdd''
     (mk_seq [Lit CHR ''a'', Star (Group (Alt (mk_seq [Lit CHR ''b'']) (mk_seq [Lit CHR ''c'']))),
              Lit CHR ''d'']) ''-'' = ''xx-d''"
  by (simp add: string_replace_def regexp_exec_def)


section \<open>inputHandler: the claims\<close>

text \<open>
  Claim C3.  For every node and every message that has the own property
  \<^verbatim>\<open>uibuilderCtrl\<close>, \<open>inputHandler\<close> returns \<^verbatim>\<open>null\<close>, adds exactly 1 to the
  node's \<^verbatim>\<open>rcvMsgCount\<close> and leaves the collaborators as they were: it makes no call,
  so nothing is emitted to the transport and nothing is sent downstream.
\<close>

theorem inputHandler_control_dropped:
  "hasOwnProperty msg ''uibuilderCtrl'' \<Longrightarrow>
   inputHandler msg nd w = (None, nd\<lparr>rcvMsgCount := rcvMsgCount nd + 1\<rparr>, w)"
  by (simp add: inputHandler_def)

text \<open>The control message \<open>msg_ctrl\<close> is dropped, and counted.\<close>

theorem inputHandler_control_dropped_witness:
  "hasOwnProperty msg_ctrl ''uibuilderCtrl'' \<and>
   fst (inputHandler msg_ctrl node0 world0) = None \<and>
   rcvMsgCount (fst (snd (inputHandler msg_ctrl node0 world0))) = rcvMsgCount node0 + 1 \<and>
   new_events world0 (snd (snd (inputHandler msg_ctrl node0 world0))) = []"
proof -
  have h: "hasOwnProperty msg_ctrl ''uibuilderCtrl''"
    by (simp add: hasOwnProperty_def msg_ctrl_def)
  from inputHandler_control_dropped [OF h, of node0 world0] h show ?thesis
    by (simp add: new_events_def)
qed

lemma inputHandler_data:
  assumes "\<not> hasOwnProperty msg ''uibuilderCtrl''"
  shows "\<exists>m. fst (inputHandler msg nd w) = Some m
           \<and> (\<not> allowScripts nd \<longrightarrow> \<not> hasOwnProperty m ''script'')
           \<and> (\<not> allowStyles nd \<longrightarrow> \<not> hasOwnProperty m ''style'')
           \<and> filter is_transport (new_events w (snd (snd (inputHandler msg nd w)))) =
               [if truthy (get_prop msg ''_socketId'')
                then EmitTo (get_prop msg ''_socketId'') (server (ioChannels nd)) m
                else Emit (server (ioChannels nd)) m]
           \<and> filter is_output (new_events w (snd (snd (inputHandler msg nd w)))) =
               (if fwdInMessages nd then [Send m] else [])"
  using assms
  by (simp add: inputHandler_def Let_def new_events_def hasOwnProperty_delete_prop get_prop_delete_prop)

text \<open>
  Claim C7.  For a message without \<^verbatim>\<open>uibuilderCtrl\<close>, \<open>inputHandler\<close> returns a
  message and emits exactly one message to the transport, the same one; when
  \<^verbatim>\<open>allowScripts\<close> is false that message has no \<^verbatim>\<open>script\<close> property, and when
  \<^verbatim>\<open>allowStyles\<close> is false it has no \<^verbatim>\<open>style\<close> property, whatever the incoming
  message contained.
\<close>

theorem inputHandler_sanitises:
  "\<not> hasOwnProperty msg ''uibuilderCtrl'' \<Longrightarrow>
   \<exists>m ev. fst (inputHandler msg nd w) = Some m
      \<and> filter is_transport (new_events w (snd (snd (inputHandler msg nd w)))) = [ev]
      \<and> emitted_msg ev = Some m
      \<and> (\<not> allowScripts nd \<longrightarrow> \<not> hasOwnProperty m ''script'')
      \<and> (\<not> allowStyles nd \<longrightarrow> \<not> hasOwnProperty m ''style'')"
proof -
  assume "\<not> hasOwnProperty msg ''uibuilderCtrl''"
  from inputHandler_data [OF this, of nd w] obtain m where
    m: "fst (inputHandler msg nd w) = Some m"
       "\<not> allowScripts nd \<longrightarrow> \<not> hasOwnProperty m ''script''"
       "\<not> allowStyles nd \<longrightarrow> \<not> hasOwnProperty m ''style''"
       "filter is_transport (new_events w (snd (snd (inputHandler msg nd w)))) =
               [if truthy (get_prop msg ''_socketId'')
                then EmitTo (get_prop msg ''_socketId'') (server (ioChannels nd)) m
                else Emit (server (ioChannels nd)) m]"
    by blast
  let ?ev = "if truthy (get_prop msg ''_socketId'')
                then EmitTo (get_prop msg ''_socketId'') (server (ioChannels nd)) m
                else Emit (server (ioChannels nd)) m"
  have "emitted_msg ?ev = Some m" by simp
  with m show ?thesis by blast
qed

text \<open>The message \<open>msg_data\<close> has a \<^verbatim>\<open>script\<close>; what is emitted and returned has
  none.\<close>

theorem inputHandler_sanitises_witness:
  "\<not> hasOwnProperty msg_data ''uibuilderCtrl'' \<and> hasOwnProperty msg_data ''script''
   \<and> \<not> allowScripts node0 \<and> \<not> allowStyles node0
   \<and> (\<exists>m ev. fst (inputHandler msg_data node0 world0) = Some m
      \<and> filter is_transport (new_events world0 (snd (snd (inputHandler msg_data node0 world0)))) = [ev]
      \<and> emitted_msg ev = Some m
      \<and> \<not> hasOwnProperty m ''script'' \<and> \<not> hasOwnProperty m ''style'')"
proof -
  have h: "\<not> hasOwnProperty msg_data ''uibuilderCtrl''"
    by (simp add: hasOwnProperty_def msg_data_def)
  have a: "\<not> allowScripts node0" "\<not> allowStyles node0" "hasOwnProperty msg_data ''script''"
    by (simp_all add: node0_def hasOwnProperty_def msg_data_def)
  from inputHandler_sanitises [OF h, of node0 world0] h a show ?thesis by blast
qed

lemma inputHandler_transport:
  assumes "\<not> hasOwnProperty msg ''uibuilderCtrl''"
  shows "\<exists>m. fst (inputHandler msg nd w) = Some m
           \<and> (\<forall>k. k \<noteq> ''script'' \<and> k \<noteq> ''style'' \<longrightarrow>
                  get_prop m k = get_prop msg k \<and> hasOwnProperty m k = hasOwnProperty msg k)
           \<and> filter is_transport (new_events w (snd (snd (inputHandler msg nd w)))) =
               [if truthy (get_prop msg ''_socketId'')
                then EmitTo (get_prop msg ''_socketId'') (server (ioChannels nd)) m
                else Emit (server (ioChannels nd)) m]"
  using assms
  by (simp add: inputHandler_def Let_def new_events_def hasOwnProperty_delete_prop get_prop_delete_prop)

text \<open>
  Claim C8, as amended.  For a message without \<^verbatim>\<open>uibuilderCtrl\<close>, \<open>inputHandler\<close>
  makes exactly one transport call, on the \<^verbatim>\<open>server\<close> channel, with the message it
  returns, whose properties other than \<^verbatim>\<open>script\<close> and \<^verbatim>\<open>style\<close> are those of the
  incoming message.  When the \<^verbatim>\<open>_socketId\<close> of the message counts as true, that call
  is an emission to the client of that id, and there is no broadcast.  When the
  \<^verbatim>\<open>_socketId\<close> is absent or counts as false, that call is a broadcast to the
  namespace.
\<close>

theorem inputHandler_delivery:
  "\<not> hasOwnProperty msg ''uibuilderCtrl'' \<Longrightarrow>
   \<exists>m. fst (inputHandler msg nd w) = Some m
     \<and> (\<forall>k. k \<noteq> ''script'' \<and> k \<noteq> ''style'' \<longrightarrow>
            get_prop m k = get_prop msg k \<and> hasOwnProperty m k = hasOwnProperty msg k)
     \<and> (truthy (get_prop msg ''_socketId'') \<longrightarrow>
          filter is_transport (new_events w (snd (snd (inputHandler msg nd w)))) =
            [EmitTo (get_prop msg ''_socketId'') (server (ioChannels nd)) m])
     \<and> (\<not> truthy (get_prop msg ''_socketId'') \<longrightarrow>
          filter is_transport (new_events w (snd (snd (inputHandler msg nd w)))) =
            [Emit (server (ioChannels nd)) m])
     \<and> (\<not> hasOwnProperty msg ''_socketId'' \<longrightarrow> \<not> truthy (get_prop msg ''_socketId''))"
proof -
  assume "\<not> hasOwnProperty msg ''uibuilderCtrl''"
  from inputHandler_transport [OF this, of nd w] obtain m where
    m: "fst (inputHandler msg nd w) = Some m"
       "\<forall>k. k \<noteq> ''script'' \<and> k \<noteq> ''style'' \<longrightarrow>
              get_prop m k = get_prop msg k \<and> hasOwnProperty m k = hasOwnProperty msg k"
       "filter is_transport (new_events w (snd (snd (inputHandler msg nd w)))) =
               [if truthy (get_prop msg ''_socketId'')
                then EmitTo (get_prop msg ''_socketId'') (server (ioChannels nd)) m
                else Emit (server (ioChannels nd)) m]"
    by (elim exE conjE)
  have t: "truthy (get_prop msg ''_socketId'') \<longrightarrow>
          filter is_transport (new_events w (snd (snd (inputHandler msg nd w)))) =
            [EmitTo (get_prop msg ''_socketId'') (server (ioChannels nd)) m]"
    using m(3) by simp
  have b: "\<not> truthy (get_prop msg ''_socketId'') \<longrightarrow>
          filter is_transport (new_events w (snd (snd (inputHandler msg nd w)))) =
            [Emit (server (ioChannels nd)) m]"
    using m(3) by simp
  have a: "\<not> hasOwnProperty msg ''_socketId'' \<longrightarrow> \<not> truthy (get_prop msg ''_socketId'')"
    by (simp add: get_prop_missing)
  show ?thesis
    by (rule exI [where x = m], intro conjI) (rule m(1) m(2) t b a)+
qed

text \<open>\<open>msg_target\<close> goes to the client \<^verbatim>\<open>s1\<close> only, \<open>msg_data\<close> to the whole
  namespace.\<close>

theorem inputHandler_delivery_witness:
  "\<not> hasOwnProperty msg_target ''uibuilderCtrl'' \<and> truthy (get_prop msg_target ''_socketId'')
   \<and> (\<exists>m. fst (inputHandler msg_target node0 world0) = Some m
         \<and> get_prop m ''payload'' = JNum 1
         \<and> filter is_transport (new_events world0 (snd (snd (inputHandler msg_target node0 world0)))) =
              [EmitTo (JStr ''s1'') ''uiBuilder'' m])
   \<and> \<not> hasOwnProperty msg_data ''uibuilderCtrl'' \<and> \<not> hasOwnProperty msg_data ''_socketId''
   \<and> (\<exists>m. fst (inputHandler msg_data node0 world0) = Some m
         \<and> filter is_transport (new_events world0 (snd (snd (inputHandler msg_data node0 world0)))) =
              [Emit ''uiBuilder'' m])"
proof -
  have h: "\<not> hasOwnProperty msg_target ''uibuilderCtrl''" "\<not> hasOwnProperty msg_data ''uibuilderCtrl''"
    by (simp_all add: hasOwnProperty_def msg_target_def msg_data_def)
  have a: "get_prop msg_target ''_socketId'' = JStr ''s1''" "get_prop msg_target ''payload'' = JNum 1"
     "\<not> hasOwnProperty msg_data ''_socketId''"
    by (simp_all add: get_prop_def hasOwnProperty_def msg_target_def msg_data_def)
  have s: "server (ioChannels node0) = ''uiBuilder''" by (simp add: node0_def)
  from inputHandler_delivery [OF h(1), of node0 world0] obtain m where
    m: "fst (inputHandler msg_target node0 world0) = Some m"
       "\<forall>k. k \<noteq> ''script'' \<and> k \<noteq> ''style'' \<longrightarrow>
              get_prop m k = get_prop msg_target k \<and> hasOwnProperty m k = hasOwnProperty msg_target k"
       "truthy (get_prop msg_target ''_socketId'') \<longrightarrow>
          filter is_transport (new_events world0 (snd (snd (inputHandler msg_target node0 world0)))) =
            [EmitTo (get_prop msg_target ''_socketId'') (server (ioChannels node0)) m]"
    by (elim exE conjE)
  from m(2) have p: "get_prop m ''payload'' = JNum 1" by (simp add: a)
  from m(3) have e: "filter is_transport (new_events world0 (snd (snd (inputHandler msg_target node0 world0)))) =
            [EmitTo (JStr ''s1'') ''uiBuilder'' m]"
    by (simp add: a s)
  from inputHandler_delivery [OF h(2), of node0 world0] obtain m' where
    m': "fst (inputHandler msg_data node0 world0) = Some m'"
       "\<not> truthy (get_prop msg_data ''_socketId'') \<longrightarrow>
          filter is_transport (new_events world0 (snd (snd (inputHandler msg_data node0 world0)))) =
            [Emit (server (ioChannels node0)) m']"
       "\<not> hasOwnProperty msg_data ''_socketId'' \<longrightarrow> \<not> truthy (get_prop msg_data ''_socketId'')"
    by (elim exE conjE)
  from m'(2,3) a(3) have e': "filter is_transport (new_events world0 (snd (snd (inputHandler msg_data node0 world0)))) =
            [Emit ''uiBuilder'' m']"
    by (simp add: s)
  have t: "truthy (get_prop msg_target ''_socketId'')" by (simp add: a)
  have x: "\<exists>m. fst (inputHandler msg_target node0 world0) = Some m
         \<and> get_prop m ''payload'' = JNum 1
         \<and> filter is_transport (new_events world0 (snd (snd (inputHandler msg_target node0 world0)))) =
              [EmitTo (JStr ''s1'') ''uiBuilder'' m]"
    by (rule exI [where x = m], intro conjI) (rule m(1) p e)+
  have y: "\<exists>m. fst (inputHandler msg_data node0 world0) = Some m
         \<and> filter is_transport (new_events world0 (snd (snd (inputHandler msg_data node0 world0)))) =
              [Emit ''uiBuilder'' m]"
    by (rule exI [where x = m'], intro conjI) (rule m'(1) e')+
  show ?thesis
    by (intro conjI) (rule h a(3) t x y)+
qed

text \<open>
  Against claim C8 as it is stated: \<open>msg_zero_id\<close> carries the \<^verbatim>\<open>_socketId\<close>
  \<^verbatim>\<open>0\<close>, and the only transport call is a broadcast to the namespace.
\<close>

theorem inputHandler_falsy_id_broadcast:
  "\<not> hasOwnProperty msg_zero_id ''uibuilderCtrl'' \<and>
   hasOwnProperty msg_zero_id ''_socketId'' \<and>
   get_prop msg_zero_id ''_socketId'' = JNum 0 \<and>
   filter is_transport (new_events world0 (snd (snd (inputHandler msg_zero_id node0 world0)))) =
     [Emit ''uiBuilder'' msg_zero_id]"
  by (simp add: inputHandler_def Let_def new_events_def hasOwnProperty_def get_prop_def
      msg_zero_id_def node0_def world0_def record_event_def)


section \<open>sendControl: the claims\<close>

lemma sendControl_result:
  "fst (sendControl msg nd sid w) =
     (let msg1 = (if truthy sid then set_prop msg ''_socketId'' sid else msg)
      in if \<not> hasOwnProperty msg1 ''topic'' \<and> topic nd \<noteq> ''''
         then set_prop msg1 ''topic'' (JStr (topic nd)) else msg1)"
  by (simp add: sendControl_def Let_def)

lemma sendControl_new_events:
  "new_events w (snd (sendControl msg nd sid w)) =
     [if truthy (if truthy sid then sid else get_prop msg ''_socketId'')
      then EmitTo (if truthy sid then sid else get_prop msg ''_socketId'') (control (ioChannels nd))
             (if truthy sid then set_prop msg ''_socketId'' sid else msg)
      else Emit (control (ioChannels nd)) (if truthy sid then set_prop msg ''_socketId'' sid else msg),
      SendArr [None, Some (fst (sendControl msg nd sid w))]]"
  unfolding new_events_def sendControl_trace by simp

text \<open>
  Claim C5.  Every call of \<open>sendControl\<close>, whatever the state of the namespace and
  its connected clients, makes exactly one call of \<^verbatim>\<open>node.send\<close>, with the pair of
  \<^verbatim>\<open>null\<close> and the message.  That message has the node's topic as its \<^verbatim>\<open>topic\<close>
  exactly when the message passed in had no \<^verbatim>\<open>topic\<close> property and the node's topic
  is not empty; otherwise its \<^verbatim>\<open>topic\<close> is as it was.  Apart from \<^verbatim>\<open>topic\<close> and
  \<^verbatim>\<open>_socketId\<close> the properties are those of the message passed in.
\<close>

theorem sendControl_output:
  "filter is_output (new_events w (snd (sendControl msg nd sid w))) =
     [SendArr [None, Some (fst (sendControl msg nd sid w))]]
   \<and> get_prop (fst (sendControl msg nd sid w)) ''topic'' =
       (if \<not> hasOwnProperty msg ''topic'' \<and> topic nd \<noteq> '''' then JStr (topic nd)
        else get_prop msg ''topic'')
   \<and> hasOwnProperty (fst (sendControl msg nd sid w)) ''topic'' =
       (hasOwnProperty msg ''topic'' \<or> topic nd \<noteq> '''')
   \<and> (\<forall>k. k \<noteq> ''topic'' \<and> k \<noteq> ''_socketId'' \<longrightarrow>
         get_prop (fst (sendControl msg nd sid w)) k = get_prop msg k)"
proof -
  have "filter is_output (new_events w (snd (sendControl msg nd sid w))) =
     [SendArr [None, Some (fst (sendControl msg nd sid w))]]"
    unfolding sendControl_new_events by simp
  moreover have "get_prop (fst (sendControl msg nd sid w)) ''topic'' =
       (if \<not> hasOwnProperty msg ''topic'' \<and> topic nd \<noteq> '''' then JStr (topic nd)
        else get_prop msg ''topic'')"
    unfolding sendControl_result Let_def
    by (simp add: get_prop_set_prop hasOwnProperty_set_prop)
  moreover have "hasOwnProperty (fst (sendControl msg nd sid w)) ''topic'' =
       (hasOwnProperty msg ''topic'' \<or> topic nd \<noteq> '''')"
    unfolding sendControl_result Let_def
    by (simp add: hasOwnProperty_set_prop)
  moreover have "get_prop (fst (sendControl msg nd sid w)) k = get_prop msg k"
    if "k \<noteq> ''topic''" "k \<noteq> ''_socketId''" for k
    using that unfolding sendControl_result Let_def
    by (simp add: get_prop_set_prop)
  ultimately show ?thesis by blast
qed

text \<open>The shutdown notice with an empty topic on the node goes out unchanged; with
  the topic \<^verbatim>\<open>t\<close> on the node it is stamped.\<close>

theorem sendControl_output_witness:
  "filter is_output (new_events world0 (snd (sendControl shutdown_msg node0 JUndefined world0))) =
     [SendArr [None, Some shutdown_msg]]
   \<and> topic node0 = '''' \<and> \<not> hasOwnProperty shutdown_msg ''topic''
   \<and> \<not> hasOwnProperty (fst (sendControl shutdown_msg node0 JUndefined world0)) ''topic''
   \<and> ''from'' \<noteq> ''topic'' \<and> ''from'' \<noteq> ''_socketId''
   \<and> get_prop (fst (sendControl shutdown_msg node0 JUndefined world0)) ''from'' = JStr ''server''
   \<and> \<not> hasOwnProperty shutdown_msg ''topic'' \<and> topic (node0\<lparr>topic := ''t''\<rparr>) \<noteq> ''''
   \<and> get_prop (fst (sendControl shutdown_msg (node0\<lparr>topic := ''t''\<rparr>) JUndefined world0)) ''topic'' = JStr ''t''"
proof -
  have r: "fst (sendControl shutdown_msg node0 JUndefined world0) = shutdown_msg"
    by (simp add: sendControl_result node0_def shutdown_msg_def hasOwnProperty_def)
  have a: "topic node0 = ''''" "\<not> hasOwnProperty shutdown_msg ''topic''"
     "get_prop shutdown_msg ''from'' = JStr ''server''" "topic (node0\<lparr>topic := ''t''\<rparr>) = ''t''"
    by (simp_all add: node0_def shutdown_msg_def hasOwnProperty_def get_prop_def)
  from sendControl_output [of world0 shutdown_msg node0 JUndefined]
       sendControl_output [of world0 shutdown_msg "node0\<lparr>topic := ''t''\<rparr>" JUndefined]
       a show ?thesis unfolding r by simp
qed

text \<open>
  Claim C10, as amended.  When \<open>sendControl\<close> is called without a socket id (or with
  one that counts as false) and the \<^verbatim>\<open>_socketId\<close> of the message counts as true, the
  only transport call is an emission to that client on the \<^verbatim>\<open>control\<close> channel.  A
  broadcast happens exactly when the socket id argument is absent or counts as false and
  the \<^verbatim>\<open>_socketId\<close> of the message is absent or counts as false.
\<close>

theorem sendControl_target:
  "(\<not> truthy sid \<and> truthy (get_prop msg ''_socketId'') \<longrightarrow>
      filter is_transport (new_events w (snd (sendControl msg nd sid w))) =
        [EmitTo (get_prop msg ''_socketId'') (control (ioChannels nd)) msg])
   \<and> ((filter is_broadcast (new_events w (snd (sendControl msg nd sid w))) \<noteq> []) =
        (\<not> truthy sid \<and> \<not> truthy (get_prop msg ''_socketId'')))"
  unfolding sendControl_new_events by simp

text \<open>\<open>msg_target\<close> carries \<^verbatim>\<open>s1\<close>: it goes to that client and is not
  broadcast.\<close>

theorem sendControl_target_witness:
  "\<not> truthy JUndefined \<and> truthy (get_prop msg_target ''_socketId'')
   \<and> filter is_transport (new_events world0 (snd (sendControl msg_target node0 JUndefined world0))) =
        [EmitTo (JStr ''s1'') ''uiBuilderControl'' msg_target]
   \<and> filter is_broadcast (new_events world0 (snd (sendControl msg_target node0 JUndefined world0))) = []"
proof -
  have a: "\<not> truthy JUndefined" "get_prop msg_target ''_socketId'' = JStr ''s1''"
     "control (ioChannels node0) = ''uiBuilderControl''"
    by (simp_all add: get_prop_def msg_target_def node0_def)
  from sendControl_target [of JUndefined msg_target world0 node0] a show ?thesis by simp
qed

text \<open>
  Against claim C10 as it is stated: \<open>msg_empty_id\<close> contains the \<^verbatim>\<open>_socketId\<close>
  key, with the empty string, and no socket id is passed; the control emission is a
  broadcast to the namespace.
\<close>

theorem sendControl_falsy_id_broadcast:
  "hasOwnProperty msg_empty_id ''_socketId'' \<and>
   filter is_transport (new_events world0 (snd (sendControl msg_empty_id node0 JUndefined world0))) =
     [Emit ''uiBuilderControl'' msg_empty_id]"
  unfolding sendControl_new_events
  by (simp add: hasOwnProperty_def get_prop_def msg_empty_id_def node0_def)


section \<open>getProps: the claim\<close>

lemma getProps_loop_miss:
  "\<forall>p \<in> set ps. (case gmp myObj p of Inl e \<Rightarrow> True | Inr ans \<Rightarrow> ans = JUndefined) \<Longrightarrow>
   getProps_loop gmp myObj ps = JUndefined"
  by (induction ps) (auto split: sum.splits)

lemma getProps_miss:
  "\<forall>p \<in> set ps. (case gmp myObj p of Inl e \<Rightarrow> True | Inr ans \<Rightarrow> ans = JUndefined) \<Longrightarrow>
   defaultAnswer \<noteq> JUndefined \<Longrightarrow> getProps gmp myObj (JArr ps) defaultAnswer = defaultAnswer"
  by (simp add: getProps_def getProps_loop_miss)

lemma getProps_loop_first:
  "\<forall>q \<in> set qs. (case gmp myObj q of Inl e \<Rightarrow> True | Inr ans \<Rightarrow> ans = JUndefined) \<Longrightarrow>
   gmp myObj p = Inr a \<Longrightarrow> a \<noteq> JUndefined \<Longrightarrow>
   getProps_loop gmp myObj (qs @ p # ps) = a"
  by (induction qs) (auto split: sum.splits)

lemma getProps_first_truthy:
  "\<forall>q \<in> set qs. (case gmp myObj q of Inl e \<Rightarrow> True | Inr ans \<Rightarrow> ans = JUndefined) \<Longrightarrow>
   gmp myObj p = Inr a \<Longrightarrow> truthy a \<Longrightarrow>
   getProps gmp myObj (JArr (qs @ p # ps)) defaultAnswer = a"
proof -
  assume qs: "\<forall>q \<in> set qs. (case gmp myObj q of Inl e \<Rightarrow> True | Inr ans \<Rightarrow> ans = JUndefined)"
    and p: "gmp myObj p = Inr a" and a: "truthy a"
  from a have "a \<noteq> JUndefined" by auto
  with qs p have "getProps_loop gmp myObj (qs @ p # ps) = a"
    by (rule getProps_loop_first)
  with a show ?thesis
    by (simp add: getProps_def)
qed

text \<open>
  Claim C4 at the object \<^verbatim>\<open>{a: 0}\<close>, the paths \<^verbatim>\<open>['a']\<close> and the default
  \<^verbatim>\<open>5\<close>: the lookup of the first path yields the defined value \<^verbatim>\<open>0\<close>, and
  \<open>getProps\<close> returns the default \<^verbatim>\<open>5\<close>.
\<close>

theorem getProps_falsy_value:
  "dotted_lookup (JObj [(''a'', JNum 0)]) (JStr ''a'') = Inr (JNum 0) \<and>
   getProps dotted_lookup (JObj [(''a'', JNum 0)]) (JArr [JStr ''a'']) (JNum 5) = JNum 5"
  by (simp add: getProps_def get_prop_def)

section \<open>escapeRegExp: the claim\<close>

text \<open>
  Claim C9.  For every string \<open>s\<close>, the pattern \<^verbatim>\<open>^\<close>, \<open>escapeRegExp s\<close>,
  \<^verbatim>\<open>$\<close> is accepted by \<^verbatim>\<open>RegExp\<close> and is the sequence of the characters of \<open>s\<close>
  as literals between the two anchors; it matches a string exactly when that string is
  \<open>s\<close>.
\<close>

theorem escapeRegExp_literal:
  "RegExp (''^'' @ escapeRegExp s @ ''$'') = Some (mk_seq (Bol # map Lit s @ [Eol]))
   \<and> (\<forall>t. regexp_test (mk_seq (Bol # map Lit s @ [Eol])) t = (t = s))"
  using RegExp_exact_pattern [of s] regexp_test_exact_pattern [of s] by blast


section \<open>processClose: the claims\<close>

text \<open>
  Claim C1 at the registry with the entries for \<^verbatim>\<open>/a\<close>, \<^verbatim>\<open>/a/b\<close> and \<^verbatim>\<open>/c\<close>
  and the node of url \<^verbatim>\<open>a\<close>: \<open>processClose\<close> ends with the \<^verbatim>\<open>ReferenceError\<close>
  of line 69 and the registry still holds the three entries, that of \<^verbatim>\<open>/a\<close>
  included.  No call of \<open>processClose\<close> changes the registry.
\<close>

theorem processClose_registry_unchanged:
  "stack (snd (processClose done nd w)) = stack w \<and>
   url node0 = ''a'' \<and>
   stack world0 = [mounted ''/a'', mounted ''/a/b'', mounted ''/c''] \<and>
   fst (processClose None node0 world0) = Some (ReferenceError ''setNodeStatus'') \<and>
   stack (snd (processClose None node0 world0)) = [mounted ''/a'', mounted ''/a/b'', mounted ''/c'']"
  by (simp add: processClose_raises) (simp add: node0_def world0_def)


text \<open>
  Claim C6 at any call with a callback supplied: \<open>processClose\<close> emits nothing to
  the transport, so the shutdown notice is not dispatched, and it does not invoke the
  callback.
\<close>

theorem processClose_no_notice_no_callback:
  "filter is_transport (new_events w (snd (processClose (Some cb) nd w))) = [] \<and>
   filter is_called (new_events w (snd (processClose (Some cb) nd w))) = [] \<and>
   Emit (control (ioChannels nd)) shutdown_msg \<notin> set (trace (snd (processClose (Some cb) nd world0))) \<and>
   Called cb \<notin> set (trace (snd (processClose (Some cb) nd world0)))"
  by (simp add: processClose_raises new_events_def record_event_def) (simp add: world0_def)


end
